theory Spec2Isabelle
  imports Complex_Main
begin

section \<open>Go library functions used by the program\<close>

text \<open>
  Go strings are byte sequences; they are modelled as \<open>string\<close> (a list of 8-bit
  characters). The functions of package \<open>strings\<close> below follow the Go library on
  ASCII text: \<open>ToLower\<close> maps \<open>A\<close>..\<open>Z\<close> and leaves every other byte alone,
  \<open>TrimSpace\<close> removes the six ASCII white-space bytes. Both call sites of
  \<open>strings.Split\<close> and the one of \<open>strings.SplitN\<close> pass a one-byte separator, so the
  separator is a \<open>char\<close> here.
\<close>

definition lower_byte :: "char \<Rightarrow> char" where
  "lower_byte c =
     (let n = (of_char c :: nat) in if 65 \<le> n \<and> n \<le> 90 then char_of (n + 32) else c)"

definition ToLower :: "string \<Rightarrow> string" where
  "ToLower s = map lower_byte s"

definition is_space :: "char \<Rightarrow> bool" where
  "is_space c = (c \<in> set [CHR 0x09, CHR 0x0A, CHR 0x0B, CHR 0x0C, CHR 0x0D, CHR 0x20])"

definition TrimSpace :: "string \<Rightarrow> string" where
  "TrimSpace s = rev (dropWhile is_space (rev (dropWhile is_space s)))"

fun HasPrefix :: "string \<Rightarrow> string \<Rightarrow> bool" where
  "HasPrefix s [] = True"
| "HasPrefix [] (p # ps) = False"
| "HasPrefix (c # cs) (p # ps) = (c = p \<and> HasPrefix cs ps)"

fun Contains :: "string \<Rightarrow> string \<Rightarrow> bool" where
  "Contains [] sub = HasPrefix [] sub"
| "Contains (c # cs) sub = (HasPrefix (c # cs) sub \<or> Contains cs sub)"

fun Split :: "string \<Rightarrow> char \<Rightarrow> string list" where
  "Split [] sep = [[]]"
| "Split (c # cs) sep =
     (if c = sep then [] # Split cs sep
      else (case Split cs sep of [] \<Rightarrow> [[c]] | p # ps \<Rightarrow> (c # p) # ps))"

definition SplitN2 :: "string \<Rightarrow> char \<Rightarrow> string list" where
  \<comment> \<open>\<open>strings.SplitN(s, sep, 2)\<close>: cut at the first separator, if there is one.\<close>
  "SplitN2 s sep =
     (if sep \<in> set s then [takeWhile (\<lambda>c. c \<noteq> sep) s, tl (dropWhile (\<lambda>c. c \<noteq> sep) s)]
      else [s])"

fun Join :: "string list \<Rightarrow> string \<Rightarrow> string" where
  "Join [] sep = []"
| "Join [p] sep = p"
| "Join (p # q # ps) sep = p @ sep @ Join (q # ps) sep"

definition TrimSuffix :: "string \<Rightarrow> string \<Rightarrow> string" where
  "TrimSuffix s suffix =
     (if HasPrefix (rev s) (rev suffix) then take (length s - length suffix) s else s)"

fun digits :: "nat \<Rightarrow> string" where
  "digits n = (if n < 10 then [char_of (48 + n)] else digits (n div 10) @ [char_of (48 + n mod 10)])"

text \<open>
  A \<open>time.Time\<close> is modelled by the number of nanoseconds since the zero time
  (January 1 of year 1, 00:00:00 UTC), so that \<open>IsZero\<close> is equality with 0.
  \<open>time.Parse\<close> is library code: every function that calls it takes it as the
  parameter \<open>parse\<close> (layout, then value).
\<close>

type_synonym time = int

type_synonym time_parse = "string \<Rightarrow> string \<Rightarrow> time option"

definition RFC3339 :: string where
  "RFC3339 = ''2006-01-02T15:04:05Z07:00''"

section \<open>Results and errors\<close>

definition StatusRegistered :: string where
  "StatusRegistered = ''registered''"

definition StatusAvailable :: string where
  "StatusAvailable = ''available''"

definition StatusUnknown :: string where
  "StatusUnknown = ''unknown''"

record Result =
  Domain :: string
  Status :: string
  Registrar :: string
  Expiry :: "time option"
  Source :: string
  Err :: string

definition Result0 :: Result where
  \<comment> \<open>Go's zero value \<open>Result{}\<close>.\<close>
  "Result0 = \<lparr>Domain = [], Status = [], Registrar = [], Expiry = None, Source = [], Err = []\<rparr>"

text \<open>
  Every error value the program builds, with the text \<open>Error()\<close> gives for it. The
  messages are Chinese in the source; they are written here as their UTF-8 bytes. An
  argument named \<open>cause\<close> is the text of the library error the source wraps with
  \<open>%w\<close> or passes on unchanged.
\<close>

datatype error =
    InvalidDomain string
  | NoRDAPServer string
  | NoWHOISServer string
  | BootstrapFetchFailed string
  | BootstrapParseFailed string
  | LibraryError string
  | HTTPStatus nat
  | RDAPParseFailed string
  | AllRDAPFailed string
  | WHOISConnectFailed string string
  | WHOISSendFailed string
  | WHOISReadFailed string
  | WHOISUnparsable string

fun error_text :: "error \<Rightarrow> string" where
  "error_text (InvalidDomain domain) =
     [CHR 0xE6, CHR 0x97, CHR 0xA0, CHR 0xE6, CHR 0x95, CHR 0x88, CHR 0xE5, CHR 0x9F, CHR 0x9F,
      CHR 0xE5, CHR 0x90, CHR 0x8D] @ '': '' @ domain"
| "error_text (NoRDAPServer tld) =
     [CHR 0xE6, CHR 0x9C, CHR 0xAA, CHR 0xE6, CHR 0x89, CHR 0xBE, CHR 0xE5, CHR 0x88, CHR 0xB0]
     @ '' TLD '' @ [CHR 0xE7, CHR 0x9A, CHR 0x84] @ '' RDAP ''
     @ [CHR 0xE6, CHR 0x9C, CHR 0x8D, CHR 0xE5, CHR 0x8A, CHR 0xA1, CHR 0xE5, CHR 0x99, CHR 0xA8]
     @ '': '' @ tld"
| "error_text (NoWHOISServer tld) =
     [CHR 0xE6, CHR 0x9C, CHR 0xAA, CHR 0xE6, CHR 0x89, CHR 0xBE, CHR 0xE5, CHR 0x88, CHR 0xB0]
     @ '' TLD '' @ [CHR 0xE7, CHR 0x9A, CHR 0x84] @ '' WHOIS ''
     @ [CHR 0xE6, CHR 0x9C, CHR 0x8D, CHR 0xE5, CHR 0x8A, CHR 0xA1, CHR 0xE5, CHR 0x99, CHR 0xA8]
     @ '': '' @ tld"
| "error_text (BootstrapFetchFailed cause) =
     [CHR 0xE8, CHR 0x8E, CHR 0xB7, CHR 0xE5, CHR 0x8F, CHR 0x96] @ '' RDAP bootstrap ''
     @ [CHR 0xE5, CHR 0xA4, CHR 0xB1, CHR 0xE8, CHR 0xB4, CHR 0xA5] @ '': '' @ cause"
| "error_text (BootstrapParseFailed cause) =
     [CHR 0xE8, CHR 0xA7, CHR 0xA3, CHR 0xE6, CHR 0x9E, CHR 0x90] @ '' bootstrap JSON ''
     @ [CHR 0xE5, CHR 0xA4, CHR 0xB1, CHR 0xE8, CHR 0xB4, CHR 0xA5] @ '': '' @ cause"
| "error_text (LibraryError cause) = cause"
| "error_text (HTTPStatus code) = ''HTTP '' @ digits code"
| "error_text (RDAPParseFailed cause) =
     [CHR 0xE8, CHR 0xA7, CHR 0xA3, CHR 0xE6, CHR 0x9E, CHR 0x90] @ '' RDAP ''
     @ [CHR 0xE5, CHR 0x93, CHR 0x8D, CHR 0xE5, CHR 0xBA, CHR 0x94, CHR 0xE5, CHR 0xA4, CHR 0xB1,
        CHR 0xE8, CHR 0xB4, CHR 0xA5] @ '': '' @ cause"
| "error_text (AllRDAPFailed domain) =
     [CHR 0xE6, CHR 0x89, CHR 0x80, CHR 0xE6, CHR 0x9C, CHR 0x89] @ '' RDAP ''
     @ [CHR 0xE6, CHR 0x9C, CHR 0x8D, CHR 0xE5, CHR 0x8A, CHR 0xA1, CHR 0xE5, CHR 0x99, CHR 0xA8,
        CHR 0xE5, CHR 0x9D, CHR 0x87, CHR 0xE5, CHR 0xA4, CHR 0xB1, CHR 0xE8, CHR 0xB4, CHR 0xA5]
     @ '': '' @ domain"
| "error_text (WHOISConnectFailed srv cause) =
     [CHR 0xE8, CHR 0xBF, CHR 0x9E, CHR 0xE6, CHR 0x8E, CHR 0xA5] @ '' WHOIS ''
     @ [CHR 0xE6, CHR 0x9C, CHR 0x8D, CHR 0xE5, CHR 0x8A, CHR 0xA1, CHR 0xE5, CHR 0x99, CHR 0xA8,
        CHR 0xE5, CHR 0xA4, CHR 0xB1, CHR 0xE8, CHR 0xB4, CHR 0xA5] @ '' '' @ srv @ '': '' @ cause"
| "error_text (WHOISSendFailed cause) =
     [CHR 0xE5, CHR 0x8F, CHR 0x91, CHR 0xE9, CHR 0x80, CHR 0x81] @ '' WHOIS ''
     @ [CHR 0xE6, CHR 0x9F, CHR 0xA5, CHR 0xE8, CHR 0xAF, CHR 0xA2, CHR 0xE5, CHR 0xA4, CHR 0xB1,
        CHR 0xE8, CHR 0xB4, CHR 0xA5] @ '': '' @ cause"
| "error_text (WHOISReadFailed cause) =
     [CHR 0xE8, CHR 0xAF, CHR 0xBB, CHR 0xE5, CHR 0x8F, CHR 0x96] @ '' WHOIS ''
     @ [CHR 0xE5, CHR 0x93, CHR 0x8D, CHR 0xE5, CHR 0xBA, CHR 0x94, CHR 0xE5, CHR 0xA4, CHR 0xB1,
        CHR 0xE8, CHR 0xB4, CHR 0xA5] @ '': '' @ cause"
| "error_text (WHOISUnparsable domain) =
     [CHR 0xE6, CHR 0x97, CHR 0xA0, CHR 0xE6, CHR 0xB3, CHR 0x95, CHR 0xE8, CHR 0xA7, CHR 0xA3,
      CHR 0xE6, CHR 0x9E, CHR 0x90] @ '' WHOIS '' @ [CHR 0xE5, CHR 0x93, CHR 0x8D, CHR 0xE5, CHR 0xBA, CHR 0x94]
     @ '': '' @ domain"

section \<open>The WHOIS client\<close>

definition whoisServers :: "(string \<times> string) list" where
  "whoisServers =
    [(''ac'', ''whois.nic.ac''),
     (''ae'', ''whois.aeda.net.ae''),
     (''ai'', ''whois.nic.ai''),
     (''app'', ''whois.nic.google''),
     (''au'', ''whois.auda.org.au''),
     (''biz'', ''whois.biz''),
     (''ca'', ''whois.cira.ca''),
     (''cc'', ''ccwhois.verisign-grs.com''),
     (''cn'', ''whois.cnnic.cn''),
     (''co'', ''whois.nic.co''),
     (''com'', ''whois.verisign-grs.com''),
     (''de'', ''whois.denic.de''),
     (''dev'', ''whois.nic.google''),
     (''edu'', ''whois.educause.edu''),
     (''fr'', ''whois.nic.fr''),
     (''hk'', ''whois.hkirc.hk''),
     (''info'', ''whois.afilias.net''),
     (''io'', ''whois.nic.io''),
     (''jp'', ''whois.jprs.jp''),
     (''kr'', ''whois.kr''),
     (''me'', ''whois.nic.me''),
     (''mobi'', ''whois.dotmobiregistry.net''),
     (''net'', ''whois.verisign-grs.com''),
     (''org'', ''whois.pir.org''),
     (''ru'', ''whois.tcinet.ru''),
     (''sh'', ''whois.nic.sh''),
     (''so'', ''whois.nic.so''),
     (''tv'', ''tvwhois.verisign-grs.com''),
     (''uk'', ''whois.nic.uk''),
     (''us'', ''whois.nic.us''),
     (''xyz'', ''whois.nic.xyz'')]"

definition notRegisteredMarkers :: "string list" where
  "notRegisteredMarkers =
    [''no match for'',
     ''not found'',
     ''no entries found'',
     ''no data found'',
     ''object does not exist'',
     ''no objects found'',
     ''domain not found'',
     ''status: free'',
     ''available for registration'',
     ''this domain name has not been registered'']"

definition registeredMarkers :: "string list" where
  "registeredMarkers =
    [''domain name:'',
     ''registrar:'',
     ''creation date:'',
     ''registered on:'',
     ''domain status:'',
     ''registrant:'',
     ''registry domain id:'',
     ''nserver:'']"

definition whois_server :: "string \<Rightarrow> error + string" where
  \<comment> \<open>\<open>WHOISClient.server\<close>\<close>
  "whois_server domainname =
     (let parts = Split domainname (CHR ''.'') in
      if length parts < 2 then Inl (InvalidDomain domainname)
      else
        (case (if 3 \<le> length parts
               then map_of whoisServers (Join (drop (length parts - 2) parts) ''.'')
               else None) of
           Some srv \<Rightarrow> Inr srv
         | None \<Rightarrow>
             (let tld = last parts in
              case map_of whoisServers tld of
                Some srv \<Rightarrow> Inr srv
              | None \<Rightarrow> Inl (NoWHOISServer tld))))"

fun whoisField_lines :: "string list \<Rightarrow> string \<Rightarrow> string" where
  "whoisField_lines [] lowerField = []"
| "whoisField_lines (line # rest) lowerField =
     (let trimmed = TrimSpace line in
      if HasPrefix (ToLower trimmed) lowerField then
        (let parts = SplitN2 trimmed (CHR '':'') in
         if length parts = 2 then TrimSpace (parts ! 1)
         else whoisField_lines rest lowerField)
      else whoisField_lines rest lowerField)"

definition whoisField :: "string \<Rightarrow> string \<Rightarrow> string" where
  "whoisField body field = whoisField_lines (Split body (CHR 0x0A)) (ToLower field @ '':'')"

definition whoisDateFormats :: "string list" where
  "whoisDateFormats =
    [RFC3339, ''2006-01-02T15:04:05Z'', ''2006-01-02'', ''02-Jan-2006'', ''2006.01.02'',
     ''02/01/2006'']"

fun parse_first :: "time_parse \<Rightarrow> string list \<Rightarrow> string \<Rightarrow> time" where
  "parse_first parse [] s = 0"
| "parse_first parse (f # fs) s =
     (case parse f s of Some t \<Rightarrow> t | None \<Rightarrow> parse_first parse fs s)"

definition parseWhoisDate :: "time_parse \<Rightarrow> string \<Rightarrow> time" where
  "parseWhoisDate parse s = parse_first parse whoisDateFormats (TrimSpace s)"

fun whois_expiry :: "time_parse \<Rightarrow> string \<Rightarrow> string list \<Rightarrow> time option" where
  "whois_expiry parse body [] = None"
| "whois_expiry parse body (field # rest) =
     (let t = parseWhoisDate parse (whoisField body field) in
      if t \<noteq> 0 then Some t else whois_expiry parse body rest)"

definition parseWHOIS :: "time_parse \<Rightarrow> string \<Rightarrow> string \<Rightarrow> Result" where
  "parseWHOIS parse domainname body =
     (let lower = ToLower body in
      if list_ex (Contains lower) notRegisteredMarkers then
        Result0\<lparr>Domain := domainname, Status := StatusAvailable\<rparr>
      else if list_ex (Contains lower) registeredMarkers then
        Result0\<lparr>Domain := domainname, Status := StatusRegistered,
          Registrar := whoisField body ''Registrar'',
          Expiry := whois_expiry parse body
            [''Registry Expiry Date'', ''Expiry Date'', ''Expiration Date'', ''paid-till'']\<rparr>
      else Result0\<lparr>Domain := domainname, Status := StatusUnknown\<rparr>)"

section \<open>The network and the decoders, as one call sees them\<close>

text \<open>
  What the program cannot decide is given to it: \<open>http_get n url\<close> is the answer to
  the GET of \<open>url\<close> issued as request number \<open>n\<close> of the HTTP client (so the same
  address may answer differently later), \<open>tcp43 addr payload\<close> is the outcome of one
  WHOIS conversation, \<open>unmarshal_bootstrap\<close> and \<open>unmarshal_domain\<close> stand for
  \<open>json.Unmarshal\<close> into the two structs the program declares (\<open>Inl\<close> carries the
  decoder's error text), and \<open>parse_time\<close> is \<open>time.Parse\<close>.
\<close>

datatype read_result = ReadError string | ReadOK string

datatype http_response = GetError string | Response nat read_result

datatype whois_io = DialError string | WriteError string | ReadAllError string | Reply string

datatype jvalue =
    JNull
  | JBool bool
  | JNumber real
  | JString string
  | JArray "jvalue list"
  | JObject "(string \<times> jvalue) list"

record event =
  Action :: string
  Date :: string

record entity =
  Roles :: "string list"
  VCardArray :: jvalue

record domain_doc =
  LDHName :: string
  StatusList :: "string list"
  Events :: "event list"
  Entities :: "entity list"

record env =
  http_get :: "nat \<Rightarrow> string \<Rightarrow> http_response"
  unmarshal_bootstrap :: "string \<Rightarrow> string + string list list list"
  unmarshal_domain :: "string \<Rightarrow> string + domain_doc"
  parse_time :: time_parse
  tcp43 :: "string \<Rightarrow> string \<Rightarrow> whois_io"

section \<open>The RDAP client\<close>

text \<open>
  The struct \<open>RDAPClient\<close>: the bootstrap map and the loaded flag, and for its
  \<open>http\<close> field the list of the addresses requested through it so far. The mutex
  is not a field here: \<open>loadBootstrap\<close> holds the write lock for its whole body, so
  it is one atomic step on this record.
\<close>

record RDAPClient =
  bootstrap :: "string \<rightharpoonup> string list"
  loaded :: bool
  http_log :: "string list"

definition NewRDAPClient :: RDAPClient where
  "NewRDAPClient = \<lparr>bootstrap = Map.empty, loaded = False, http_log = []\<rparr>"

definition bootstrapURL :: string where
  "bootstrapURL = ''https://data.iana.org/rdap/dns.json''"

definition http_Get :: "env \<Rightarrow> RDAPClient \<Rightarrow> string \<Rightarrow> http_response \<times> RDAPClient" where
  \<comment> \<open>\<open>c.http.Get(url)\<close>\<close>
  "http_Get e c url = (http_get e (length (http_log c)) url, c\<lparr>http_log := http_log c @ [url]\<rparr>)"

fun store_services ::
  "(string \<rightharpoonup> string list) \<Rightarrow> string list list list \<Rightarrow> (string \<rightharpoonup> string list)" where
  "store_services m [] = m"
| "store_services m (svc # rest) =
     (if length svc < 2 then store_services m rest
      else store_services (fold (\<lambda>tld m'. m'(ToLower tld \<mapsto> svc ! 1)) (svc ! 0) m) rest)"

definition loadBootstrap :: "env \<Rightarrow> RDAPClient \<Rightarrow> error option \<times> RDAPClient" where
  "loadBootstrap e c =
     (if loaded c then (None, c)
      else
        (case http_Get e c bootstrapURL of
           (GetError cause, c1) \<Rightarrow> (Some (BootstrapFetchFailed cause), c1)
         | (Response code rd, c1) \<Rightarrow>
             (case rd of
                ReadError cause \<Rightarrow> (Some (LibraryError cause), c1)
              | ReadOK body \<Rightarrow>
                  (case unmarshal_bootstrap e body of
                     Inl cause \<Rightarrow> (Some (BootstrapParseFailed cause), c1)
                   | Inr services \<Rightarrow>
                       (None, c1\<lparr>bootstrap := store_services (bootstrap c1) services,
                                 loaded := True\<rparr>)))))"

definition rdap_servers :: "env \<Rightarrow> RDAPClient \<Rightarrow> string \<Rightarrow> (error + string list) \<times> RDAPClient" where
  \<comment> \<open>\<open>RDAPClient.servers\<close>\<close>
  "rdap_servers e c domainname =
     (case loadBootstrap e c of
        (Some err, c1) \<Rightarrow> (Inl err, c1)
      | (None, c1) \<Rightarrow>
          (let parts = Split domainname (CHR ''.'') in
           if length parts < 2 then (Inl (InvalidDomain domainname), c1)
           else
             (case (if 3 \<le> length parts
                    then bootstrap c1 (Join (drop (length parts - 2) parts) ''.'')
                    else None) of
                Some srvs \<Rightarrow> (Inr srvs, c1)
              | None \<Rightarrow>
                  (let tld = last parts in
                   case bootstrap c1 tld of
                     Some srvs \<Rightarrow> (Inr srvs, c1)
                   | None \<Rightarrow> (Inl (NoRDAPServer tld), c1)))))"

fun first_fn :: "jvalue list \<Rightarrow> string" where
  \<comment> \<open>the loop over \<open>props\<close> in \<open>extractVCardFN\<close>\<close>
  "first_fn [] = []"
| "first_fn (p # ps) =
     (case p of
        JArray prop \<Rightarrow>
          (if length prop < 4 then first_fn ps
           else
             (case prop ! 0 of
                JString name \<Rightarrow>
                  (if name \<noteq> ''fn'' then first_fn ps
                   else (case prop ! 3 of JString val \<Rightarrow> val | _ \<Rightarrow> first_fn ps))
              | _ \<Rightarrow> first_fn ps))
      | _ \<Rightarrow> first_fn ps)"

definition extractVCardFN :: "jvalue \<Rightarrow> string" where
  "extractVCardFN vc =
     (case vc of
        JArray arr \<Rightarrow>
          (if length arr < 2 then []
           else (case arr ! 1 of JArray props \<Rightarrow> first_fn props | _ \<Rightarrow> []))
      | _ \<Rightarrow> [])"

fun scan_events :: "time_parse \<Rightarrow> event list \<Rightarrow> Result \<Rightarrow> Result" where
  \<comment> \<open>the loop over \<open>d.Events\<close> in \<open>queryServer\<close>\<close>
  "scan_events parse [] result = result"
| "scan_events parse (ev # evs) result =
     scan_events parse evs
       (if Action ev = ''expiration'' then
          (case parse RFC3339 (Date ev) of
             Some t \<Rightarrow> result\<lparr>Expiry := Some t\<rparr>
           | None \<Rightarrow> result)
        else result)"

fun scan_roles :: "string list \<Rightarrow> entity \<Rightarrow> Result \<Rightarrow> Result" where
  \<comment> \<open>the inner loop over \<open>entity.Roles\<close>, left by \<open>break\<close> at the first match\<close>
  "scan_roles [] ent result = result"
| "scan_roles (role # roles) ent result =
     (if role = ''registrar'' then result\<lparr>Registrar := extractVCardFN (VCardArray ent)\<rparr>
      else scan_roles roles ent result)"

fun scan_entities :: "entity list \<Rightarrow> Result \<Rightarrow> Result" where
  \<comment> \<open>the outer loop over \<open>d.Entities\<close>, which runs to the end of the list\<close>
  "scan_entities [] result = result"
| "scan_entities (ent # ents) result = scan_entities ents (scan_roles (Roles ent) ent result)"

definition queryServer ::
  "env \<Rightarrow> RDAPClient \<Rightarrow> string \<Rightarrow> string \<Rightarrow> (error + Result) \<times> RDAPClient" where
  "queryServer e c url domainname =
     (case http_Get e c url of
        (GetError cause, c1) \<Rightarrow> (Inl (LibraryError cause), c1)
      | (Response code rd, c1) \<Rightarrow>
          (if code = 404 then
             (Inr (Result0\<lparr>Domain := domainname, Status := StatusAvailable\<rparr>), c1)
           else if code \<noteq> 200 then (Inl (HTTPStatus code), c1)
           else
             (case rd of
                ReadError cause \<Rightarrow> (Inl (LibraryError cause), c1)
              | ReadOK body \<Rightarrow>
                  (case unmarshal_domain e body of
                     Inl cause \<Rightarrow> (Inl (RDAPParseFailed cause), c1)
                   | Inr d \<Rightarrow>
                       (Inr (scan_entities (Entities d)
                               (scan_events (parse_time e) (Events d)
                                  (Result0\<lparr>Domain := domainname, Status := StatusRegistered\<rparr>))),
                        c1)))))"

definition endpoint_url :: "string \<Rightarrow> string \<Rightarrow> string" where
  "endpoint_url srv domainname = TrimSuffix srv ''/'' @ ''/domain/'' @ domainname"

fun query_each ::
  "env \<Rightarrow> RDAPClient \<Rightarrow> string list \<Rightarrow> string \<Rightarrow> (error + Result) \<times> RDAPClient" where
  \<comment> \<open>the loop over \<open>servers\<close> in \<open>RDAPClient.Query\<close>\<close>
  "query_each e c [] domainname = (Inl (AllRDAPFailed domainname), c)"
| "query_each e c (srv # rest) domainname =
     (case queryServer e c (endpoint_url srv domainname) domainname of
        (Inr result, c1) \<Rightarrow> (Inr result, c1)
      | (Inl err, c1) \<Rightarrow> query_each e c1 rest domainname)"

definition rdap_Query :: "env \<Rightarrow> RDAPClient \<Rightarrow> string \<Rightarrow> (error + Result) \<times> RDAPClient" where
  \<comment> \<open>\<open>RDAPClient.Query\<close>\<close>
  "rdap_Query e c domainname =
     (case rdap_servers e c domainname of
        (Inl err, c1) \<Rightarrow> (Inl err, c1)
      | (Inr servers, c1) \<Rightarrow> query_each e c1 servers domainname)"

definition endpoint_result ::
  "env \<Rightarrow> RDAPClient \<Rightarrow> string list \<Rightarrow> string \<Rightarrow> nat \<Rightarrow> error + Result" where
  \<comment> \<open>what the request to endpoint \<open>k\<close> of the list yields in the loop of \<open>Query\<close>, the
      \<open>k\<close> endpoints before it having been requested\<close>
  "endpoint_result e c srvs domainname k =
     fst (queryServer e
            (c\<lparr>http_log := http_log c @ map (\<lambda>srv. endpoint_url srv domainname) (take k srvs)\<rparr>)
            (endpoint_url (srvs ! k) domainname) domainname)"

definition fn_property :: "jvalue \<Rightarrow> bool" where
  \<comment> \<open>a property tuple at which the loop of \<open>extractVCardFN\<close> returns\<close>
  "fn_property p =
     (case p of
        JArray prop \<Rightarrow>
          4 \<le> length prop \<and> prop ! 0 = JString ''fn'' \<and>
          (case prop ! 3 of JString val \<Rightarrow> True | _ \<Rightarrow> False)
      | _ \<Rightarrow> False)"

section \<open>The WHOIS query and the checker\<close>

definition whois_Query :: "env \<Rightarrow> string \<Rightarrow> error + Result" where
  \<comment> \<open>\<open>WHOISClient.Query\<close>; the Result it returns beside an error is never read\<close>
  "whois_Query e domainname =
     (case whois_server domainname of
        Inl err \<Rightarrow> Inl err
      | Inr srv \<Rightarrow>
          (case tcp43 e (srv @ '':43'') (domainname @ [CHR 0x0D, CHR 0x0A]) of
             DialError cause \<Rightarrow> Inl (WHOISConnectFailed srv cause)
           | WriteError cause \<Rightarrow> Inl (WHOISSendFailed cause)
           | ReadAllError cause \<Rightarrow> Inl (WHOISReadFailed cause)
           | Reply body \<Rightarrow>
               (let result = parseWHOIS (parse_time e) domainname body in
                if Status result = StatusUnknown then Inl (WHOISUnparsable domainname)
                else Inr result)))"

definition Check :: "env \<Rightarrow> RDAPClient \<Rightarrow> string \<Rightarrow> Result \<times> RDAPClient" where
  \<comment> \<open>\<open>Checker.Check\<close>; of the checker's two clients only the RDAP one has state\<close>
  "Check e c domainname =
     (let d = ToLower (TrimSpace domainname) in
      case rdap_Query e c d of
        (Inr result, c1) \<Rightarrow> (result\<lparr>Source := ''rdap''\<rparr>, c1)
      | (Inl rdap_err, c1) \<Rightarrow>
          (case whois_Query e d of
             Inl err \<Rightarrow>
               (Result0\<lparr>Domain := d, Status := StatusUnknown, Err := error_text err\<rparr>, c1)
           | Inr result \<Rightarrow> (result\<lparr>Source := ''whois''\<rparr>, c1)))"

definition decided :: "string \<Rightarrow> Result \<Rightarrow> bool" where
  \<comment> \<open>the Results a client returns without an error, before \<open>Check\<close> sets the source\<close>
  "decided d r \<longleftrightarrow>
     Domain r = d \<and> (Status r = StatusAvailable \<or> Status r = StatusRegistered) \<and>
     Source r = [] \<and> Err r = []"

section \<open>The batch dispatcher\<close>

text \<open>
  \<open>queryAll\<close> starts one goroutine per domain; each sends on the buffered channel
  \<open>sem\<close>, calls \<open>Check\<close>, stores the Result at its own index, receives from
  \<open>sem\<close> and is done. The goroutines interleave, so the function is modelled by the
  steps a scheduler can take: a batch records where each goroutine stands
  (\<open>phases\<close>), the number of elements in the channel (\<open>sem_len\<close>) and its capacity
  (\<open>sem_cap\<close>). A send is possible only while the channel holds fewer elements than
  its capacity (never, for capacity 0: no goroutine receives before it has sent), a
  receive only while it holds one. \<open>Finish i e\<close> is the whole call of \<open>Check\<close> by
  goroutine \<open>i\<close>, with the network \<open>e\<close> it meets: the call shares only the RDAP
  client with the others, and reads and writes it under the client's lock.
  \<open>make(chan struct{}, concurrency)\<close> panics for a negative size.
\<close>

datatype phase = Waiting | Running | Written | Done

record batch =
  domains :: "string list"
  results :: "Result list"
  phases :: "phase list"
  sem_len :: nat
  sem_cap :: nat
  checker :: RDAPClient

datatype panic = MakechanSizeOutOfRange

definition queryAll_start :: "string list \<Rightarrow> int \<Rightarrow> panic + batch" where
  "queryAll_start ds concurrency =
     (if concurrency < 0 then Inl MakechanSizeOutOfRange
      else Inr \<lparr>domains = ds, results = replicate (length ds) Result0,
                phases = replicate (length ds) Waiting, sem_len = 0,
                sem_cap = nat concurrency, checker = NewRDAPClient\<rparr>)"

datatype action = Acquire nat | Finish nat env | Release nat

fun step :: "action \<Rightarrow> batch \<Rightarrow> batch option" where
  "step (Acquire i) b =
     (if i < length (phases b) \<and> phases b ! i = Waiting \<and> sem_len b < sem_cap b
      then Some (b\<lparr>phases := (phases b)[i := Running], sem_len := sem_len b + 1\<rparr>)
      else None)"
| "step (Finish i e) b =
     (if i < length (phases b) \<and> phases b ! i = Running
      then (case Check e (checker b) (domains b ! i) of
              (r, c1) \<Rightarrow>
                Some (b\<lparr>results := (results b)[i := r], phases := (phases b)[i := Written],
                        checker := c1\<rparr>))
      else None)"
| "step (Release i) b =
     (if i < length (phases b) \<and> phases b ! i = Written \<and> 0 < sem_len b
      then Some (b\<lparr>phases := (phases b)[i := Done], sem_len := sem_len b - 1\<rparr>)
      else None)"

fun run :: "action list \<Rightarrow> batch \<Rightarrow> batch option" where
  "run [] b = Some b"
| "run (a # as) b = (case step a b of None \<Rightarrow> None | Some b1 \<Rightarrow> run as b1)"

definition finished :: "batch \<Rightarrow> bool" where
  \<comment> \<open>\<open>wg.Wait()\<close> returns\<close>
  "finished b = list_all (\<lambda>p. p = Done) (phases b)"

definition queryAll_returns :: "string list \<Rightarrow> int \<Rightarrow> Result list \<Rightarrow> bool" where
  "queryAll_returns ds concurrency rs =
     (\<exists>b0 sched b. queryAll_start ds concurrency = Inr b0 \<and> run sched b0 = Some b
        \<and> finished b \<and> results b = rs)"

definition in_flight :: "batch \<Rightarrow> nat" where
  \<comment> \<open>the goroutines between their send on \<open>sem\<close> and their receive from it\<close>
  "in_flight b = length (filter (\<lambda>p. p = Running \<or> p = Written) (phases b))"

definition batch_inv :: "string list \<Rightarrow> batch \<Rightarrow> bool" where
  \<comment> \<open>what holds of a batch after any number of steps\<close>
  "batch_inv ds b \<longleftrightarrow>
     domains b = ds \<and> length (results b) = length ds \<and> length (phases b) = length ds \<and>
     in_flight b = sem_len b \<and> sem_len b \<le> sem_cap b \<and>
     (\<forall>i<length ds. phases b ! i = Written \<or> phases b ! i = Done \<longrightarrow>
        Domain (results b ! i) = ToLower (TrimSpace (ds ! i)))"

fun steps_left :: "phase \<Rightarrow> nat" where
  "steps_left Waiting = 3"
| "steps_left Running = 2"
| "steps_left Written = 1"
| "steps_left Done = 0"

definition weight :: "batch \<Rightarrow> nat" where
  "weight b = sum_list (map steps_left (phases b))"

section \<open>The resolution the specification describes for the WHOIS table\<close>

definition lookup_last_label :: "string \<Rightarrow> string option" where
  \<comment> \<open>a direct lookup of the last label in the table\<close>
  "lookup_last_label domainname = map_of whoisServers (last (Split domainname (CHR ''.'')))"

definition server_found :: "error + string \<Rightarrow> string option" where
  "server_found r = (case r of Inl err \<Rightarrow> None | Inr srv \<Rightarrow> Some srv)"

section \<open>Example inputs\<close>

definition whois_reply_registered :: string where
  "whois_reply_registered =
     ''Domain Name: EXAMPLE.COM'' @ [CHR 0x0D, CHR 0x0A] @
     ''   Registrar: Example Inc.'' @ [CHR 0x0D, CHR 0x0A] @
     ''Registrar: Other Ltd.'' @ [CHR 0x0D, CHR 0x0A]"

definition vcard :: "string \<Rightarrow> jvalue" where
  "vcard name =
     JArray [JString ''vcard'',
       JArray [JArray [JString ''version'', JObject [], JString ''text'', JString ''4.0''],
               JArray [JString ''fn'', JObject [], JString ''text'', JString name]]]"

definition example_doc :: domain_doc where
  "example_doc =
     \<lparr>LDHName = ''example.com'', StatusList = [''active''],
      Events = [\<lparr>Action = ''expiration'', Date = ''2026-08-13T00:00:00Z''\<rparr>],
      Entities =
        [\<lparr>Roles = [''registrar''], VCardArray = vcard ''First Registrar''\<rparr>,
         \<lparr>Roles = [''technical''], VCardArray = vcard ''Tech Contact''\<rparr>,
         \<lparr>Roles = [''abuse'', ''registrar''], VCardArray = vcard ''Second Registrar''\<rparr>]\<rparr>"

text \<open>
  A network for the examples: the first request of the client times out and every later
  request is answered; \<open>com\<close> and \<open>net\<close> have two RDAP endpoints and \<open>org\<close> has
  the first of them only; the first endpoint answers 503, the second knows
  \<open>example.com\<close> and answers 404 for every other name.
\<close>

definition example_env :: env where
  "example_env =
     \<lparr>http_get = (\<lambda>n url.
        if n = 0 then GetError ''timeout''
        else if url = bootstrapURL then Response 200 (ReadOK ''services'')
        else if HasPrefix url ''https://rdap.one.example/'' then Response 503 (ReadOK [])
        else if url = ''https://rdap.two.example/domain/example.com''
          then Response 200 (ReadOK ''document'')
        else Response 404 (ReadOK [])),
      unmarshal_bootstrap = (\<lambda>body.
        if body = ''services''
        then Inr [[[''COM'', ''net''], [''https://rdap.one.example/'', ''https://rdap.two.example'']],
                  [[''org''], [''https://rdap.one.example/'']],
                  [[''test'']]]
        else Inl ''unexpected end of JSON input''),
      unmarshal_domain = (\<lambda>body.
        if body = ''document'' then Inr example_doc else Inl ''unexpected end of JSON input''),
      parse_time = (\<lambda>layout v.
        if layout = RFC3339 \<and> v = ''2026-08-13T00:00:00Z'' then Some 63922435200000000000
        else None),
      tcp43 = (\<lambda>addr payload.
        if addr = ''whois.verisign-grs.com:43'' then Reply whois_reply_registered
        else DialError ''connection refused'')\<rparr>"

definition loaded_client :: RDAPClient where
  \<comment> \<open>the client after one failed and one successful fetch of the bootstrap file\<close>
  "loaded_client =
     \<lparr>bootstrap =
        [''com'' \<mapsto> [''https://rdap.one.example/'', ''https://rdap.two.example''],
         ''net'' \<mapsto> [''https://rdap.one.example/'', ''https://rdap.two.example''],
         ''org'' \<mapsto> [''https://rdap.one.example/'']],
      loaded = True,
      http_log = [bootstrapURL, bootstrapURL]\<rparr>"

definition example_batch :: batch where
  "example_batch =
     \<lparr>domains = [''a.com'', ''b.com'', ''c.com''],
      results = [Result0, Result0, Result0],
      phases = [Waiting, Waiting, Waiting],
      sem_len = 0, sem_cap = 2, checker = NewRDAPClient\<rparr>"



lemma HasPrefix_iff: "HasPrefix s p \<longleftrightarrow> (\<exists>t. s = p @ t)"
  by (induction s p rule: HasPrefix.induct) auto

section \<open>Substrings\<close>

lemma Contains_iff: "Contains s sub \<longleftrightarrow> (\<exists>pre post. s = pre @ sub @ post)"
proof (induction s)
  case Nil
  then show ?case by (auto simp: HasPrefix_iff)
next
  case (Cons c cs)
  show ?case
  proof
    assume "Contains (c # cs) sub"
    then consider "HasPrefix (c # cs) sub" | "Contains cs sub" by auto
    then show "\<exists>pre post. c # cs = pre @ sub @ post"
    proof cases
      case 1
      then obtain t where "c # cs = sub @ t" by (auto simp: HasPrefix_iff)
      then have "c # cs = [] @ sub @ t" by simp
      then show ?thesis by blast
    next
      case 2
      then obtain pre post where "cs = pre @ sub @ post" using Cons.IH by blast
      then have "c # cs = (c # pre) @ sub @ post" by simp
      then show ?thesis by blast
    qed
  next
    assume "\<exists>pre post. c # cs = pre @ sub @ post"
    then obtain pre post where e: "c # cs = pre @ sub @ post" by blast
    show "Contains (c # cs) sub"
    proof (cases pre)
      case Nil
      with e have "HasPrefix (c # cs) sub" by (auto simp: HasPrefix_iff)
      then show ?thesis by simp
    next
      case (Cons p pre')
      with e have "cs = pre' @ sub @ post" by simp
      then have "Contains cs sub" using Cons.IH by blast
      then show ?thesis by simp
    qed
  qed
qed

section \<open>The WHOIS server table\<close>

lemma whoisServers_no_dot: "(k, v) \<in> set whoisServers \<Longrightarrow> CHR ''.'' \<notin> set k"
  by (auto simp: whoisServers_def)

lemma whoisServers_dotted_key: "CHR ''.'' \<in> set k \<Longrightarrow> map_of whoisServers k = None"
  using whoisServers_no_dot by (meson map_of_SomeD not_None_eq)

lemma Join_last_two:
  assumes "3 \<le> length parts"
  shows "CHR ''.'' \<in> set (Join (drop (length parts - 2) parts) ''.'')"
proof -
  have "length (drop (length parts - 2) parts) = 2" using assms by simp
  then obtain a b where "drop (length parts - 2) parts = [a, b]"
    by (metis (no_types, opaque_lifting) One_nat_def Suc_1 length_0_conv length_Suc_conv)
  then show ?thesis by simp
qed

text \<open>
  C10, as the code has it. A name with fewer than two labels is refused before any
  lookup, whatever its last label is. For a name with two labels or more, the lookup of
  the last two labels joined by a dot finds nothing (no key of the table holds a dot), and
  \<open>WHOISClient.server\<close> returns what the direct lookup of the last label in the table
  gives: the server, or the error naming that label.
\<close>

theorem whois_server_by_last_label:
  "(length (Split d (CHR ''.'')) < 2 \<longrightarrow> whois_server d = Inl (InvalidDomain d)) \<and>
   (3 \<le> length (Split d (CHR ''.'')) \<longrightarrow>
      map_of whoisServers
        (Join (drop (length (Split d (CHR ''.'')) - 2) (Split d (CHR ''.''))) ''.'') = None) \<and>
   (2 \<le> length (Split d (CHR ''.'')) \<longrightarrow>
      whois_server d =
        (case lookup_last_label d of
           Some srv \<Rightarrow> Inr srv
         | None \<Rightarrow> Inl (NoWHOISServer (last (Split d (CHR ''.''))))) \<and>
      server_found (whois_server d) = lookup_last_label d)"
proof (intro conjI impI)
  assume "length (Split d (CHR ''.'')) < 2"
  then show "whois_server d = Inl (InvalidDomain d)"
    by (simp add: whois_server_def Let_def)
next
  assume "3 \<le> length (Split d (CHR ''.''))"
  then show "map_of whoisServers
      (Join (drop (length (Split d (CHR ''.'')) - 2) (Split d (CHR ''.''))) ''.'') = None"
    using Join_last_two whoisServers_dotted_key by simp
next
  assume two: "2 \<le> length (Split d (CHR ''.''))"
  let ?parts = "Split d (CHR ''.'')"
  have compound: "(if 3 \<le> length ?parts
                   then map_of whoisServers (Join (drop (length ?parts - 2) ?parts) ''.'')
                   else None) = None"
    using Join_last_two whoisServers_dotted_key by simp
  show eq: "whois_server d =
        (case lookup_last_label d of
           Some srv \<Rightarrow> Inr srv
         | None \<Rightarrow> Inl (NoWHOISServer (last ?parts)))"
    using two unfolding whois_server_def lookup_last_label_def Let_def compound
    by (simp split: option.splits)
  show "server_found (whois_server d) = lookup_last_label d"
    unfolding eq server_found_def by (simp split: option.splits)
qed

theorem whois_server_by_last_label_witness:
  "length (Split ''com'' (CHR ''.'')) < 2 \<and> whois_server ''com'' = Inl (InvalidDomain ''com'') \<and>
   3 \<le> length (Split ''example.co.uk'' (CHR ''.'')) \<and>
   map_of whoisServers ''co.uk'' = None \<and>
   whois_server ''example.co.uk'' = Inr ''whois.nic.uk'' \<and>
   lookup_last_label ''example.co.uk'' = Some ''whois.nic.uk''"
proof -
  have h1: "length (Split ''com'' (CHR ''.'')) < 2" by code_simp
  have sp: "Split ''example.co.uk'' (CHR ''.'') = [''example'', ''co'', ''uk'']" by code_simp
  have h3: "3 \<le> length (Split ''example.co.uk'' (CHR ''.''))" unfolding sp by simp
  have l: "lookup_last_label ''example.co.uk'' = Some ''whois.nic.uk''" by code_simp
  from whois_server_by_last_label [of "''com''"] h1
  have a: "whois_server ''com'' = Inl (InvalidDomain ''com'')" by blast
  from whois_server_by_last_label [of "''example.co.uk''"] h3
  have b: "whois_server ''example.co.uk'' = Inr ''whois.nic.uk''" unfolding l by simp
  from whois_server_by_last_label [of "''example.co.uk''"] h3
  have c: "map_of whoisServers ''co.uk'' = None" unfolding sp by simp
  from h1 h3 l a b c show ?thesis by blast
qed

text \<open>
  The claim as stated fails at the one-label name \<open>com\<close>: its last label is a key of
  the table, yet the function returns no server.
\<close>

theorem whois_server_single_label_counterexample:
  "server_found (whois_server ''com'') = None \<and>
   lookup_last_label ''com'' = Some ''whois.verisign-grs.com''"
  by code_simp

section \<open>Classification of WHOIS replies\<close>

lemma ToLower_append: "ToLower (a @ b) = ToLower a @ ToLower b"
  by (simp add: ToLower_def)

lemma Contains_ToLower: "Contains body u \<Longrightarrow> Contains (ToLower body) (ToLower u)"
proof -
  assume "Contains body u"
  then obtain pre post where "body = pre @ u @ post" unfolding Contains_iff by blast
  then have "ToLower body = ToLower pre @ ToLower u @ ToLower post"
    by (simp add: ToLower_append)
  then show ?thesis unfolding Contains_iff by blast
qed

lemma list_ex_markers: "m \<in> set ms \<Longrightarrow> Contains s m \<Longrightarrow> list_ex (Contains s) ms"
  by (auto simp: list_ex_iff)

text \<open>
  C7. \<open>parseWHOIS\<close> scans the lower-cased body for the not-registered markers before
  anything else: a body that holds one of them, in whatever letter case it is written,
  gives the Result with status available and neither registrar nor expiry, whatever else
  the body holds (the witness's body also has a \<open>Registrar:\<close> line).
\<close>

theorem parseWHOIS_not_registered_first:
  assumes "m \<in> set notRegisteredMarkers"
    and "Contains (ToLower body) m \<or> (\<exists>u. ToLower u = m \<and> Contains body u)"
  shows "parseWHOIS parse d body =
    \<lparr>Domain = d, Status = StatusAvailable, Registrar = [], Expiry = None, Source = [], Err = []\<rparr>"
proof -
  from assms(2) have "Contains (ToLower body) m"
    using Contains_ToLower by blast
  with assms(1) have "list_ex (Contains (ToLower body)) notRegisteredMarkers"
    by (rule list_ex_markers)
  then show ?thesis
    by (simp add: parseWHOIS_def Result0_def)
qed

theorem parseWHOIS_not_registered_first_witness:
  "''no match for'' \<in> set notRegisteredMarkers \<and>
   ToLower ''No match for'' = ''no match for'' \<and>
   Contains ''No match for DOMAIN.COM\<newline>Registrar: Example Inc.\<newline>'' ''No match for'' \<and>
   Contains (ToLower ''No match for DOMAIN.COM\<newline>Registrar: Example Inc.\<newline>'') ''registrar:'' \<and>
   ''registrar:'' \<in> set registeredMarkers \<and>
   parseWHOIS (\<lambda>layout v. None) ''domain.com''
     ''No match for DOMAIN.COM\<newline>Registrar: Example Inc.\<newline>'' =
   \<lparr>Domain = ''domain.com'', Status = StatusAvailable, Registrar = [], Expiry = None,
    Source = [], Err = []\<rparr>"
proof -
  have h1: "''no match for'' \<in> set notRegisteredMarkers" by (simp add: notRegisteredMarkers_def)
  have h2: "ToLower ''No match for'' = ''no match for''" by code_simp
  have h3: "Contains ''No match for DOMAIN.COM\<newline>Registrar: Example Inc.\<newline>'' ''No match for''"
    by code_simp
  have h4: "Contains (ToLower ''No match for DOMAIN.COM\<newline>Registrar: Example Inc.\<newline>'') ''registrar:''"
    by code_simp
  have h5: "''registrar:'' \<in> set registeredMarkers" by (simp add: registeredMarkers_def)
  from h2 h3 have h6: "Contains (ToLower ''No match for DOMAIN.COM\<newline>Registrar: Example Inc.\<newline>'') ''no match for''
     \<or> (\<exists>u. ToLower u = ''no match for'' \<and> Contains ''No match for DOMAIN.COM\<newline>Registrar: Example Inc.\<newline>'' u)"
    by blast
  note parseWHOIS_not_registered_first [OF h1 h6, of "\<lambda>layout v. None" "''domain.com''"]
  with h1 h2 h3 h4 h5 show ?thesis by blast
qed

section \<open>Lines of a WHOIS reply\<close>













section \<open>The loop over the RDAP endpoints\<close>

lemma queryServer_log: "snd (queryServer e c url d) = c\<lparr>http_log := http_log c @ [url]\<rparr>"
  by (simp add: queryServer_def http_Get_def split: http_response.splits read_result.splits sum.splits)

lemma queryServer_fails_iff:
  "isl (fst (queryServer e c url d)) \<longleftrightarrow>
     (case http_get e (length (http_log c)) url of
        GetError cause \<Rightarrow> True
      | Response code rd \<Rightarrow>
          code \<noteq> 404 \<and>
          (code \<noteq> 200 \<or>
           (case rd of ReadError cause \<Rightarrow> True | ReadOK body \<Rightarrow> isl (unmarshal_domain e body))))"
  by (simp add: queryServer_def http_Get_def split: http_response.splits read_result.splits sum.splits)

lemma endpoint_result_0:
  "endpoint_result e c (srv # rest) d 0 = fst (queryServer e c (endpoint_url srv d) d)"
  by (simp add: endpoint_result_def)

lemma endpoint_result_Suc:
  "endpoint_result e c (srv # rest) d (Suc k) =
   endpoint_result e (snd (queryServer e c (endpoint_url srv d) d)) rest d k"
  by (simp add: endpoint_result_def queryServer_log)

lemma query_each_all_failed:
  "fst (query_each e c srvs d) = Inl err \<longleftrightarrow>
     err = AllRDAPFailed d \<and> (\<forall>k<length srvs. isl (endpoint_result e c srvs d k))"
proof (induction srvs arbitrary: c)
  case Nil
  then show ?case by auto
next
  case (Cons srv rest)
  obtain r c1 where q: "queryServer e c (endpoint_url srv d) d = (r, c1)" by force
  show ?case
  proof (cases r)
    case (Inl a)
    have "(\<forall>k<length (srv # rest). isl (endpoint_result e c (srv # rest) d k)) \<longleftrightarrow>
          (\<forall>k<length rest. isl (endpoint_result e c1 rest d k))"
      using q Inl by (auto simp: All_less_Suc2 endpoint_result_0 endpoint_result_Suc)
    then show ?thesis using q Inl Cons.IH [of c1] by simp
  next
    case (Inr b)
    have "\<not> isl (endpoint_result e c (srv # rest) d 0)"
      using q Inr by (simp add: endpoint_result_0)
    then show ?thesis using q Inr by auto
  qed
qed

lemma query_each_first_success:
  assumes "k < length srvs"
    and "\<forall>j<k. isl (endpoint_result e c srvs d j)"
    and "endpoint_result e c srvs d k = Inr r"
  shows "query_each e c srvs d =
    (Inr r, c\<lparr>http_log := http_log c @ map (\<lambda>srv. endpoint_url srv d) (take (Suc k) srvs)\<rparr>)"
  using assms
proof (induction srvs arbitrary: c k)
  case Nil
  then show ?case by simp
next
  case (Cons srv rest)
  obtain r1 c1 where q: "queryServer e c (endpoint_url srv d) d = (r1, c1)" by force
  have c1: "c1 = c\<lparr>http_log := http_log c @ [endpoint_url srv d]\<rparr>"
    using queryServer_log [of e c "endpoint_url srv d" d] q by simp
  show ?case
  proof (cases k)
    case 0
    then have "r1 = Inr r" using Cons.prems(3) q by (simp add: endpoint_result_0)
    then show ?thesis using q c1 0 by simp
  next
    case (Suc k')
    have "isl (endpoint_result e c (srv # rest) d 0)" using Cons.prems(2) Suc by blast
    then obtain a where a: "r1 = Inl a" using q by (cases r1) (auto simp: endpoint_result_0)
    have 1: "k' < length rest" using Cons.prems(1) Suc by simp
    have 2: "\<forall>j<k'. isl (endpoint_result e c1 rest d j)"
    proof (intro allI impI)
      fix j assume "j < k'"
      then have "isl (endpoint_result e c (srv # rest) d (Suc j))"
        using Cons.prems(2) Suc by simp
      then show "isl (endpoint_result e c1 rest d j)"
        using q by (simp add: endpoint_result_Suc)
    qed
    have 3: "endpoint_result e c1 rest d k' = Inr r"
      using Cons.prems(3) Suc q by (simp add: endpoint_result_Suc)
    show ?thesis
      using Cons.IH [OF 1 2 3] q a Suc c1 by simp
  qed
qed

lemma rdap_Query_servers:
  assumes "rdap_servers e c d = (Inr srvs, c1)"
  shows "rdap_Query e c d = query_each e c1 srvs d"
  using assms by (simp add: rdap_Query_def)

lemma rdap_servers_error:
  "fst (rdap_servers e c d) = Inl err \<Longrightarrow> err \<noteq> AllRDAPFailed x"
  by (auto simp: rdap_servers_def loadBootstrap_def http_Get_def Let_def
      split: if_splits prod.splits option.splits http_response.splits read_result.splits sum.splits)
section \<open>The fields of the Results\<close>

lemma scan_events_fields:
  "Domain (scan_events parse evs r) = Domain r \<and> Status (scan_events parse evs r) = Status r \<and>
   Registrar (scan_events parse evs r) = Registrar r \<and>
   Source (scan_events parse evs r) = Source r \<and> Err (scan_events parse evs r) = Err r"
  by (induction evs arbitrary: r) (auto split: option.splits)

lemma scan_roles_fields:
  "Domain (scan_roles roles ent r) = Domain r \<and> Status (scan_roles roles ent r) = Status r \<and>
   Expiry (scan_roles roles ent r) = Expiry r \<and>
   Source (scan_roles roles ent r) = Source r \<and> Err (scan_roles roles ent r) = Err r"
  by (induction roles) auto

lemma scan_entities_fields:
  "Domain (scan_entities ents r) = Domain r \<and> Status (scan_entities ents r) = Status r \<and>
   Expiry (scan_entities ents r) = Expiry r \<and>
   Source (scan_entities ents r) = Source r \<and> Err (scan_entities ents r) = Err r"
  by (induction ents arbitrary: r) (auto simp: scan_roles_fields)

lemma queryServer_decided:
  assumes "fst (queryServer e c url d) = Inr r"
  shows "decided d r"
  using assms
  by (auto simp: queryServer_def http_Get_def decided_def Result0_def
      scan_events_fields scan_entities_fields
      split: http_response.splits read_result.splits sum.splits if_splits)

lemma query_each_decided:
  "fst (query_each e c srvs d) = Inr r \<Longrightarrow> decided d r"
proof (induction srvs arbitrary: c)
  case Nil
  then show ?case by simp
next
  case (Cons srv rest)
  obtain r1 c1 where q: "queryServer e c (endpoint_url srv d) d = (r1, c1)" by force
  show ?case
  proof (cases r1)
    case (Inl a)
    then show ?thesis using Cons q by simp
  next
    case (Inr b)
    then have "b = r" using Cons.prems q by simp
    moreover have "decided d b"
      using queryServer_decided [of e c "endpoint_url srv d" d b] q Inr by simp
    ultimately show ?thesis by simp
  qed
qed

lemma rdap_Query_decided:
  assumes "fst (rdap_Query e c d) = Inr r"
  shows "decided d r"
proof -
  obtain r1 c1 where s: "rdap_servers e c d = (r1, c1)" by force
  show ?thesis
  proof (cases r1)
    case (Inl a)
    then show ?thesis using assms s by (simp add: rdap_Query_def)
  next
    case (Inr srvs)
    then have "fst (query_each e c1 srvs d) = Inr r"
      using assms s by (simp add: rdap_Query_def)
    then show ?thesis by (rule query_each_decided)
  qed
qed

lemma parseWHOIS_fields:
  "Domain (parseWHOIS parse d body) = d \<and> Source (parseWHOIS parse d body) = [] \<and>
   Err (parseWHOIS parse d body) = [] \<and>
   (Status (parseWHOIS parse d body) = StatusAvailable \<or>
    Status (parseWHOIS parse d body) = StatusRegistered \<or>
    Status (parseWHOIS parse d body) = StatusUnknown)"
  by (simp add: parseWHOIS_def Result0_def Let_def)

lemma whois_Query_decided:
  assumes "whois_Query e d = Inr r"
  shows "decided d r"
  using assms parseWHOIS_fields [of "parse_time e" d]
  by (auto simp: whois_Query_def decided_def Let_def
      split: sum.splits whois_io.splits if_splits)

lemma whois_Query_error_text:
  assumes "whois_Query e d = Inl err"
  shows "error_text err \<noteq> []"
  using assms
  by (auto simp: whois_Query_def whois_server_def Let_def
      split: sum.splits whois_io.splits if_splits option.splits)

lemma status_distinct:
  "StatusAvailable \<noteq> StatusUnknown" "StatusRegistered \<noteq> StatusUnknown"
  "StatusAvailable \<noteq> StatusRegistered"
  by (simp_all add: StatusAvailable_def StatusUnknown_def StatusRegistered_def)

lemma Check_cases:
  "(\<exists>r. decided (ToLower (TrimSpace domain)) r \<and>
        (fst (Check e c domain) = r\<lparr>Source := ''rdap''\<rparr> \<or>
         fst (Check e c domain) = r\<lparr>Source := ''whois''\<rparr>)) \<or>
   (\<exists>err. error_text err \<noteq> [] \<and>
        fst (Check e c domain) =
          \<lparr>Domain = ToLower (TrimSpace domain), Status = StatusUnknown, Registrar = [],
           Expiry = None, Source = [], Err = error_text err\<rparr>)"
proof -
  let ?d = "ToLower (TrimSpace domain)"
  obtain r1 c1 where q: "rdap_Query e c ?d = (r1, c1)" by force
  show ?thesis
  proof (cases r1)
    case (Inr r)
    then have "decided ?d r" using rdap_Query_decided [of e c ?d r] q by simp
    moreover have "fst (Check e c domain) = r\<lparr>Source := ''rdap''\<rparr>"
      using q Inr by (simp add: Check_def Let_def)
    ultimately show ?thesis by blast
  next
    case (Inl a)
    show ?thesis
    proof (cases "whois_Query e ?d")
      case (Inr r)
      then have "decided ?d r" by (rule whois_Query_decided)
      moreover have "fst (Check e c domain) = r\<lparr>Source := ''whois''\<rparr>"
        using q Inl Inr by (simp add: Check_def Let_def)
      ultimately show ?thesis by blast
    next
      case (Inl err)
      then have "error_text err \<noteq> []" by (rule whois_Query_error_text)
      moreover have "fst (Check e c domain) =
          \<lparr>Domain = ?d, Status = StatusUnknown, Registrar = [],
           Expiry = None, Source = [], Err = error_text err\<rparr>"
        using q \<open>r1 = Inl a\<close> Inl by (simp add: Check_def Let_def Result0_def)
      ultimately show ?thesis by blast
    qed
  qed
qed

lemma Check_Domain: "Domain (fst (Check e c domain)) = ToLower (TrimSpace domain)"
  using Check_cases [of domain e c] by (auto simp: decided_def)
text \<open>
  C2. Whatever the network answers, the Result of \<open>Check\<close> has an error text exactly
  when its status is unknown and an empty source exactly when its status is unknown; its
  status is one of the three constants, and a registered or available Result has the source
  \<open>rdap\<close> or \<open>whois\<close> and no error text.
\<close>

theorem Check_result_invariant:
  "(Err (fst (Check e c domain)) \<noteq> [] \<longleftrightarrow> Status (fst (Check e c domain)) = StatusUnknown) \<and>
   (Source (fst (Check e c domain)) = [] \<longleftrightarrow> Status (fst (Check e c domain)) = StatusUnknown) \<and>
   (Status (fst (Check e c domain)) = StatusRegistered \<or>
    Status (fst (Check e c domain)) = StatusAvailable \<or>
    Status (fst (Check e c domain)) = StatusUnknown) \<and>
   (Status (fst (Check e c domain)) = StatusRegistered \<or>
    Status (fst (Check e c domain)) = StatusAvailable \<longrightarrow>
      (Source (fst (Check e c domain)) = ''rdap'' \<or> Source (fst (Check e c domain)) = ''whois'') \<and>
      Err (fst (Check e c domain)) = [])"
  using Check_cases [of domain e c] status_distinct
  by (elim disjE exE conjE) (auto simp: decided_def)

theorem Check_result_invariant_witness:
  "fst (Check example_env loaded_client ''Example.COM'') =
     \<lparr>Domain = ''example.com'', Status = StatusRegistered, Registrar = ''Second Registrar'',
      Expiry = Some 63922435200000000000, Source = ''rdap'', Err = []\<rparr> \<and>
   fst (Check example_env NewRDAPClient ''example.com'') =
     \<lparr>Domain = ''example.com'', Status = StatusRegistered, Registrar = ''Example Inc.'',
      Expiry = None, Source = ''whois'', Err = []\<rparr> \<and>
   fst (Check example_env NewRDAPClient ''example.zz'') =
     \<lparr>Domain = ''example.zz'', Status = StatusUnknown, Registrar = [], Expiry = None,
      Source = [], Err = error_text (NoWHOISServer ''zz'')\<rparr> \<and>
   Err (fst (Check example_env NewRDAPClient ''example.zz'')) \<noteq> []"
proof -
  have a: "fst (Check example_env loaded_client ''Example.COM'') =
     \<lparr>Domain = ''example.com'', Status = StatusRegistered, Registrar = ''Second Registrar'',
      Expiry = Some 63922435200000000000, Source = ''rdap'', Err = []\<rparr>"
    by code_simp
  have b: "fst (Check example_env NewRDAPClient ''example.com'') =
     \<lparr>Domain = ''example.com'', Status = StatusRegistered, Registrar = ''Example Inc.'',
      Expiry = None, Source = ''whois'', Err = []\<rparr>"
    by code_simp
  have c: "fst (Check example_env NewRDAPClient ''example.zz'') =
     \<lparr>Domain = ''example.zz'', Status = StatusUnknown, Registrar = [], Expiry = None,
      Source = [], Err = error_text (NoWHOISServer ''zz'')\<rparr>"
    by code_simp
  have "Status (fst (Check example_env NewRDAPClient ''example.zz'')) = StatusUnknown"
    unfolding c by simp
  with Check_result_invariant [of example_env NewRDAPClient "''example.zz''"]
  have "Err (fst (Check example_env NewRDAPClient ''example.zz'')) \<noteq> []" by blast
  with a b c show ?thesis by blast
qed
section \<open>Answers of the RDAP endpoints\<close>



lemma example_servers_net:
  "rdap_servers example_env loaded_client ''free.net'' =
     (Inr [''https://rdap.one.example/'', ''https://rdap.two.example''], loaded_client)"
  by (simp add: rdap_servers_def loadBootstrap_def loaded_client_def Let_def)

lemma example_endpoint_one_fails:
  "isl (endpoint_result example_env loaded_client
          [''https://rdap.one.example/'', ''https://rdap.two.example''] ''free.net'' 0)"
  by code_simp


text \<open>
  C5. \<open>Query\<close> requests the endpoints that \<open>servers\<close> gives in the order of the list.
  An endpoint fails exactly when the GET fails, the status is neither 200 nor 404, or the
  body of a 200 cannot be read or decoded. The error of a failed endpoint is dropped and
  the next endpoint is requested; the Result of the first endpoint that does not fail is
  returned, after requests to exactly the endpoints up to it; and the all-servers-failed
  error is returned exactly when \<open>servers\<close> gives a list and every endpoint of it fails.
\<close>

theorem rdap_Query_first_decisive:
  "(fst (rdap_Query e c d) = Inl (AllRDAPFailed d) \<longleftrightarrow>
      (\<exists>srvs. fst (rdap_servers e c d) = Inr srvs \<and>
         (\<forall>k<length srvs. isl (endpoint_result e (snd (rdap_servers e c d)) srvs d k)))) \<and>
   (fst (rdap_servers e c d) = Inr srvs \<longrightarrow>
      (\<forall>err. fst (rdap_Query e c d) = Inl err \<longrightarrow> err = AllRDAPFailed d) \<and>
      (\<forall>k r. k < length srvs \<and>
              (\<forall>j<k. isl (endpoint_result e (snd (rdap_servers e c d)) srvs d j)) \<and>
              endpoint_result e (snd (rdap_servers e c d)) srvs d k = Inr r \<longrightarrow>
         fst (rdap_Query e c d) = Inr r \<and>
         http_log (snd (rdap_Query e c d)) =
           http_log (snd (rdap_servers e c d)) @
           map (\<lambda>srv. endpoint_url srv d) (take (Suc k) srvs))) \<and>
   (\<forall>c2 url. isl (fst (queryServer e c2 url d)) \<longleftrightarrow>
      (case http_get e (length (http_log c2)) url of
         GetError cause \<Rightarrow> True
       | Response code rd \<Rightarrow>
           code \<noteq> 404 \<and>
           (code \<noteq> 200 \<or>
            (case rd of
               ReadError cause \<Rightarrow> True
             | ReadOK body \<Rightarrow> isl (unmarshal_domain e body)))))"
proof -
  obtain r1 c1 where s: "rdap_servers e c d = (r1, c1)" by force
  have 1: "fst (rdap_Query e c d) = Inl (AllRDAPFailed d) \<longleftrightarrow>
      (\<exists>srvs. fst (rdap_servers e c d) = Inr srvs \<and>
         (\<forall>k<length srvs. isl (endpoint_result e (snd (rdap_servers e c d)) srvs d k)))"
  proof (cases r1)
    case (Inl err)
    then have "fst (rdap_Query e c d) = Inl err" using s by (simp add: rdap_Query_def)
    moreover have "err \<noteq> AllRDAPFailed d"
      using rdap_servers_error [of e c d err d] s Inl by simp
    ultimately show ?thesis using s Inl by simp
  next
    case (Inr l)
    then have "rdap_servers e c d = (Inr l, c1)" using s by simp
    from rdap_Query_servers [OF this] s Inr show ?thesis
      by (simp add: query_each_all_failed)
  qed
  have 2: "(\<forall>err. fst (rdap_Query e c d) = Inl err \<longrightarrow> err = AllRDAPFailed d) \<and>
      (\<forall>k r. k < length srvs \<and>
              (\<forall>j<k. isl (endpoint_result e (snd (rdap_servers e c d)) srvs d j)) \<and>
              endpoint_result e (snd (rdap_servers e c d)) srvs d k = Inr r \<longrightarrow>
         fst (rdap_Query e c d) = Inr r \<and>
         http_log (snd (rdap_Query e c d)) =
           http_log (snd (rdap_servers e c d)) @
           map (\<lambda>srv. endpoint_url srv d) (take (Suc k) srvs))"
    if ok: "fst (rdap_servers e c d) = Inr srvs"
  proof (intro conjI allI impI)
    from ok s have sv: "rdap_servers e c d = (Inr srvs, c1)" by simp
    note q = rdap_Query_servers [OF sv]
    fix err assume "fst (rdap_Query e c d) = Inl err"
    then show "err = AllRDAPFailed d"
      unfolding q query_each_all_failed by simp
  next
    from ok s have sv: "rdap_servers e c d = (Inr srvs, c1)" by simp
    note q = rdap_Query_servers [OF sv]
    fix k r
    assume "k < length srvs \<and>
              (\<forall>j<k. isl (endpoint_result e (snd (rdap_servers e c d)) srvs d j)) \<and>
              endpoint_result e (snd (rdap_servers e c d)) srvs d k = Inr r"
    then have "k < length srvs" and "\<forall>j<k. isl (endpoint_result e c1 srvs d j)"
      and "endpoint_result e c1 srvs d k = Inr r"
      using sv by auto
    then have qe: "query_each e c1 srvs d =
      (Inr r, c1\<lparr>http_log := http_log c1 @ map (\<lambda>srv. endpoint_url srv d) (take (Suc k) srvs)\<rparr>)"
      by (rule query_each_first_success)
    show "fst (rdap_Query e c d) = Inr r" unfolding q qe by simp
    show "http_log (snd (rdap_Query e c d)) =
           http_log (snd (rdap_servers e c d)) @
           map (\<lambda>srv. endpoint_url srv d) (take (Suc k) srvs)"
      unfolding q qe sv by simp
  qed
  from 1 2 queryServer_fails_iff show ?thesis by blast
qed

lemma example_servers_org:
  "rdap_servers example_env loaded_client ''free.org'' =
     (Inr [''https://rdap.one.example/''], loaded_client)"
  by (simp add: rdap_servers_def loadBootstrap_def loaded_client_def Let_def)

theorem rdap_Query_first_decisive_witness:
  "rdap_servers example_env loaded_client ''free.net'' =
     (Inr [''https://rdap.one.example/'', ''https://rdap.two.example''], loaded_client) \<and>
   isl (endpoint_result example_env loaded_client
          [''https://rdap.one.example/'', ''https://rdap.two.example''] ''free.net'' 0) \<and>
   endpoint_result example_env loaded_client
     [''https://rdap.one.example/'', ''https://rdap.two.example''] ''free.net'' 1 =
     Inr (Result0\<lparr>Domain := ''free.net'', Status := StatusAvailable\<rparr>) \<and>
   fst (rdap_Query example_env loaded_client ''free.net'') =
     Inr (Result0\<lparr>Domain := ''free.net'', Status := StatusAvailable\<rparr>) \<and>
   http_log (snd (rdap_Query example_env loaded_client ''free.net'')) =
     [bootstrapURL, bootstrapURL, ''https://rdap.one.example/domain/free.net'',
      ''https://rdap.two.example/domain/free.net''] \<and>
   rdap_servers example_env loaded_client ''free.org'' =
     (Inr [''https://rdap.one.example/''], loaded_client) \<and>
   isl (endpoint_result example_env loaded_client [''https://rdap.one.example/''] ''free.org'' 0) \<and>
   fst (rdap_Query example_env loaded_client ''free.org'') = Inl (AllRDAPFailed ''free.org'')"
proof -
  let ?srvs = "[''https://rdap.one.example/'', ''https://rdap.two.example'']"
  let ?r = "Result0\<lparr>Domain := ''free.net'', Status := StatusAvailable\<rparr>"
  have sn: "fst (rdap_servers example_env loaded_client ''free.net'') = Inr ?srvs"
    and cn: "snd (rdap_servers example_env loaded_client ''free.net'') = loaded_client"
    by (simp_all add: example_servers_net)
  have so: "fst (rdap_servers example_env loaded_client ''free.org'') =
      Inr [''https://rdap.one.example/'']"
    and co: "snd (rdap_servers example_env loaded_client ''free.org'') = loaded_client"
    by (simp_all add: example_servers_org)
  have f0: "isl (endpoint_result example_env loaded_client ?srvs ''free.net'' 0)"
    by (rule example_endpoint_one_fails)
  have f1: "endpoint_result example_env loaded_client ?srvs ''free.net'' 1 = Inr ?r"
    by code_simp
  have u: "map (\<lambda>srv. endpoint_url srv ''free.net'') (take (Suc 1) ?srvs) =
      [''https://rdap.one.example/domain/free.net'', ''https://rdap.two.example/domain/free.net'']"
    by code_simp
  have h: "(1::nat) < length ?srvs \<and>
      (\<forall>j<1. isl (endpoint_result example_env loaded_client ?srvs ''free.net'' j)) \<and>
      endpoint_result example_env loaded_client ?srvs ''free.net'' 1 = Inr ?r"
    using f0 f1 by simp
  note t = rdap_Query_first_decisive [of example_env loaded_client "''free.net''" ?srvs,
      unfolded cn]
  from t sn h have q: "fst (rdap_Query example_env loaded_client ''free.net'') = Inr ?r"
    by blast
  from t sn h have "http_log (snd (rdap_Query example_env loaded_client ''free.net'')) =
      http_log loaded_client @ map (\<lambda>srv. endpoint_url srv ''free.net'') (take (Suc 1) ?srvs)"
    by blast
  then have l: "http_log (snd (rdap_Query example_env loaded_client ''free.net'')) =
     [bootstrapURL, bootstrapURL, ''https://rdap.one.example/domain/free.net'',
      ''https://rdap.two.example/domain/free.net'']"
    unfolding u by (simp add: loaded_client_def)
  have g0: "isl (endpoint_result example_env loaded_client [''https://rdap.one.example/''] ''free.org'' 0)"
    by code_simp
  then have "\<forall>k<length [''https://rdap.one.example/''].
      isl (endpoint_result example_env loaded_client [''https://rdap.one.example/''] ''free.org'' k)"
    by simp
  with rdap_Query_first_decisive [of example_env loaded_client "''free.org''", unfolded co] so
  have a: "fst (rdap_Query example_env loaded_client ''free.org'') = Inl (AllRDAPFailed ''free.org'')"
    by blast
  from example_servers_net f0 f1 q l example_servers_org g0 a show ?thesis by blast
qed

section \<open>The bootstrap cache\<close>








section \<open>The registrar of an RDAP answer\<close>

lemma scan_roles_registrar:
  "Registrar (scan_roles roles ent r) =
     (if ''registrar'' \<in> set roles then extractVCardFN (VCardArray ent) else Registrar r)"
  by (induction roles) auto

lemma scan_entities_no_registrar:
  "\<forall>x \<in> set ents. ''registrar'' \<notin> set (Roles x) \<Longrightarrow>
     Registrar (scan_entities ents r) = Registrar r"
  by (induction ents arbitrary: r) (auto simp: scan_roles_registrar)

lemma scan_entities_append:
  "scan_entities (xs @ ys) r = scan_entities ys (scan_entities xs r)"
  by (induction xs arbitrary: r) auto

lemma scan_entities_last_registrar:
  assumes "''registrar'' \<in> set (Roles ent)"
    and "\<forall>x \<in> set after. ''registrar'' \<notin> set (Roles x)"
  shows "Registrar (scan_entities (before @ ent # after) r) = extractVCardFN (VCardArray ent)"
  using assms
  by (simp add: scan_entities_append scan_entities_no_registrar scan_roles_registrar)

lemma first_fn_skip:
  "\<forall>p \<in> set pre. \<not> fn_property p \<Longrightarrow> first_fn (pre @ ps) = first_fn ps"
proof (induction pre)
  case Nil
  then show ?case by simp
next
  case (Cons p pre)
  then have "\<not> fn_property p" by simp
  then have "first_fn (p # (pre @ ps)) = first_fn (pre @ ps)"
    by (auto simp: fn_property_def split: jvalue.splits)
  then show ?case using Cons by simp
qed

lemma extractVCardFN_fourth:
  assumes "\<forall>p \<in> set pre. \<not> fn_property p"
  shows "extractVCardFN
           (JArray (tag # JArray (pre @ JArray (JString ''fn'' # p1 # p2 # JString name # others) # post)
              # rest)) = name"
  using assms by (simp add: extractVCardFN_def first_fn_skip)

text \<open>
  What the two loops compute. The \<open>break\<close> leaves the loop over one entity's roles only,
  and the loop over the entities goes on, so a later entity with the role overwrites the
  field: on a 200 answer the registrar is what \<open>extractVCardFN\<close> gives for the last entity
  whose roles include \<open>registrar\<close>. \<open>extractVCardFN\<close> returns the fourth element of the
  first property tuple that has at least four elements, the string \<open>fn\<close> first and a
  string fourth.
\<close>

lemma rdap_registrar_last_entity:
  assumes "http_get e (length (http_log c)) url = Response 200 (ReadOK body)"
    and "unmarshal_domain e body = Inr doc"
    and "Entities doc = before @ ent # after"
    and "''registrar'' \<in> set (Roles ent)"
    and "\<forall>x \<in> set after. ''registrar'' \<notin> set (Roles x)"
  shows "\<not> isl (fst (queryServer e c url d)) \<and>
    Status (projr (fst (queryServer e c url d))) = StatusRegistered \<and>
    Registrar (projr (fst (queryServer e c url d))) = extractVCardFN (VCardArray ent) \<and>
    (\<forall>tag pre p1 p2 name others post rest.
       VCardArray ent =
         JArray (tag # JArray (pre @ JArray (JString ''fn'' # p1 # p2 # JString name # others) # post)
           # rest) \<and>
       (\<forall>p \<in> set pre. \<not> fn_property p) \<longrightarrow>
       Registrar (projr (fst (queryServer e c url d))) = name)"
proof -
  let ?r0 = "scan_events (parse_time e) (Events doc)
               (Result0\<lparr>Domain := d, Status := StatusRegistered\<rparr>)"
  have q: "fst (queryServer e c url d) = Inr (scan_entities (Entities doc) ?r0)"
    using assms(1,2) by (simp add: queryServer_def http_Get_def)
  have s: "Status (scan_entities (Entities doc) ?r0) = StatusRegistered"
    by (simp add: scan_entities_fields scan_events_fields)
  have r: "Registrar (scan_entities (Entities doc) ?r0) = extractVCardFN (VCardArray ent)"
    unfolding assms(3) using assms(4,5) by (rule scan_entities_last_registrar)
  show ?thesis
    unfolding q using s r extractVCardFN_fourth by simp
qed

text \<open>
  C4. The claim takes the registrar from the first entity whose roles include
  \<open>registrar\<close>. On the example document, answered with status 200, that entity carries
  the name \<open>First Registrar\<close>; the third entity has the role too, and the Result of
  \<open>queryServer\<close>, and of \<open>Check\<close>, carries its name, \<open>Second Registrar\<close>.
\<close>

theorem rdap_registrar_two_entities:
  "http_get example_env (length (http_log loaded_client))
     ''https://rdap.two.example/domain/example.com'' = Response 200 (ReadOK ''document'') \<and>
   unmarshal_domain example_env ''document'' = Inr example_doc \<and>
   ''registrar'' \<in> set (Roles (Entities example_doc ! 0)) \<and>
   extractVCardFN (VCardArray (Entities example_doc ! 0)) = ''First Registrar'' \<and>
   ''registrar'' \<in> set (Roles (Entities example_doc ! 2)) \<and>
   Registrar (projr (fst (queryServer example_env loaded_client
     ''https://rdap.two.example/domain/example.com'' ''example.com''))) = ''Second Registrar'' \<and>
   Registrar (fst (Check example_env loaded_client ''example.com'')) = ''Second Registrar''"
proof -
  have 1: "http_get example_env (length (http_log loaded_client))
     ''https://rdap.two.example/domain/example.com'' = Response 200 (ReadOK ''document'')"
    by code_simp
  have 2: "unmarshal_domain example_env ''document'' = Inr example_doc"
    by (simp add: example_env_def)
  have 3: "''registrar'' \<in> set (Roles (Entities example_doc ! 0))"
    by (simp add: example_doc_def)
  have 4: "extractVCardFN (VCardArray (Entities example_doc ! 0)) = ''First Registrar''"
    by (simp add: example_doc_def vcard_def extractVCardFN_def)
  have 5: "''registrar'' \<in> set (Roles (Entities example_doc ! 2))"
    by (simp add: example_doc_def)
  have 6: "Registrar (projr (fst (queryServer example_env loaded_client
     ''https://rdap.two.example/domain/example.com'' ''example.com''))) = ''Second Registrar''"
    by code_simp
  have 7: "Registrar (fst (Check example_env loaded_client ''example.com'')) = ''Second Registrar''"
    by code_simp
  from 1 2 3 4 5 6 7 show ?thesis by blast
qed
section \<open>The batch dispatcher: invariant and progress\<close>

lemma count_update:
  "i < length xs \<Longrightarrow>
     length (filter P (xs[i := y])) + (if P (xs ! i) then 1 else 0) =
     length (filter P xs) + (if P y then 1 else 0)"
proof (induction xs arbitrary: i)
  case Nil
  then show ?case by simp
next
  case (Cons x xs)
  then show ?case by (cases i) auto
qed

lemma weight_update:
  "i < length xs \<Longrightarrow>
     sum_list (map steps_left (xs[i := y])) + steps_left (xs ! i) =
     sum_list (map steps_left xs) + steps_left y"
proof (induction xs arbitrary: i)
  case Nil
  then show ?case by simp
next
  case (Cons x xs)
  then show ?case by (cases i) auto
qed

lemma in_flight_update:
  assumes "i < length (phases b)"
  shows "in_flight (b\<lparr>phases := (phases b)[i := p]\<rparr>) +
           (if phases b ! i = Running \<or> phases b ! i = Written then 1 else 0) =
         in_flight b + (if p = Running \<or> p = Written then 1 else 0)"
  using count_update [OF assms, of "\<lambda>p. p = Running \<or> p = Written" p]
  by (simp add: in_flight_def)

lemma start_inv:
  assumes "queryAll_start ds concurrency = Inr b0"
  shows "batch_inv ds b0 \<and> int (sem_cap b0) = concurrency \<and> weight b0 = 3 * length ds"
proof -
  have c: "0 \<le> concurrency" and b0: "b0 = \<lparr>domains = ds, results = replicate (length ds) Result0,
      phases = replicate (length ds) Waiting, sem_len = 0, sem_cap = nat concurrency,
      checker = NewRDAPClient\<rparr>"
    using assms by (auto simp: queryAll_start_def split: if_splits)
  have "filter (\<lambda>p. p = Running \<or> p = Written) (replicate n Waiting) = []" for n
    by (induction n) auto
  then have "in_flight b0 = 0" by (simp add: in_flight_def b0)
  moreover have "sum_list (map steps_left (replicate n Waiting)) = 3 * n" for n
    by (induction n) auto
  then have "weight b0 = 3 * length ds" by (simp add: weight_def b0)
  ultimately show ?thesis using c by (simp add: batch_inv_def b0)
qed

lemma step_inv:
  assumes "batch_inv ds b" and "step a b = Some b1"
  shows "batch_inv ds b1 \<and> sem_cap b1 = sem_cap b \<and> Suc (weight b1) = weight b"
proof (cases a)
  case (Acquire i)
  with assms(2) have i: "i < length (phases b)" and w: "phases b ! i = Waiting"
    and free: "sem_len b < sem_cap b"
    and b1: "b1 = b\<lparr>phases := (phases b)[i := Running], sem_len := sem_len b + 1\<rparr>"
    by (auto split: if_splits)
  have f: "in_flight b1 = in_flight b + 1"
    using in_flight_update [OF i, of Running] w by (simp add: b1 in_flight_def)
  have "weight b1 + 3 = weight b + 2"
    using weight_update [OF i, of Running] w by (simp add: b1 weight_def)
  then have wt: "Suc (weight b1) = weight b" by simp
  have "\<forall>j<length ds. phases b1 ! j = Written \<or> phases b1 ! j = Done \<longrightarrow>
        Domain (results b1 ! j) = ToLower (TrimSpace (ds ! j))"
    using assms(1) i by (auto simp: b1 batch_inv_def nth_list_update)
  then show ?thesis using assms(1) f free wt by (simp add: batch_inv_def b1)
next
  case (Finish i e)
  obtain r c1 where chk: "Check e (checker b) (domains b ! i) = (r, c1)" by force
  with Finish assms(2) have i: "i < length (phases b)" and w: "phases b ! i = Running"
    and b1: "b1 = b\<lparr>results := (results b)[i := r], phases := (phases b)[i := Written],
                    checker := c1\<rparr>"
    by (auto split: if_splits)
  have d: "Domain r = ToLower (TrimSpace (domains b ! i))"
    using Check_Domain [of e "checker b" "domains b ! i"] chk by simp
  have f: "in_flight b1 = in_flight b"
    using in_flight_update [OF i, of Written] w by (simp add: b1 in_flight_def)
  have "weight b1 + 2 = weight b + 1"
    using weight_update [OF i, of Written] w by (simp add: b1 weight_def)
  then have wt: "Suc (weight b1) = weight b" by simp
  have "\<forall>j<length ds. phases b1 ! j = Written \<or> phases b1 ! j = Done \<longrightarrow>
        Domain (results b1 ! j) = ToLower (TrimSpace (ds ! j))"
    using assms(1) i d by (auto simp: b1 batch_inv_def nth_list_update)
  then show ?thesis using assms(1) f wt by (simp add: batch_inv_def b1)
next
  case (Release i)
  with assms(2) have i: "i < length (phases b)" and w: "phases b ! i = Written"
    and pos: "0 < sem_len b"
    and b1: "b1 = b\<lparr>phases := (phases b)[i := Done], sem_len := sem_len b - 1\<rparr>"
    by (auto split: if_splits)
  have f: "in_flight b1 + 1 = in_flight b"
    using in_flight_update [OF i, of Done] w by (simp add: b1 in_flight_def)
  have "weight b1 + 1 = weight b + 0"
    using weight_update [OF i, of Done] w by (simp add: b1 weight_def)
  then have wt: "Suc (weight b1) = weight b" by simp
  have "\<forall>j<length ds. phases b1 ! j = Written \<or> phases b1 ! j = Done \<longrightarrow>
        Domain (results b1 ! j) = ToLower (TrimSpace (ds ! j))"
    using assms(1) i w by (auto simp: b1 batch_inv_def nth_list_update)
  then show ?thesis using assms(1) f pos wt by (auto simp: batch_inv_def b1)
qed

lemma run_inv:
  assumes "batch_inv ds b" and "run sched b = Some b1"
  shows "batch_inv ds b1 \<and> sem_cap b1 = sem_cap b \<and> weight b1 + length sched = weight b"
  using assms
proof (induction sched arbitrary: b)
  case Nil
  then show ?case by simp
next
  case (Cons a sched)
  then obtain b2 where s: "step a b = Some b2" and r: "run sched b2 = Some b1"
    by (auto split: option.splits)
  from step_inv [OF Cons.prems(1) s] Cons.IH [OF _ r] show ?case by auto
qed




lemma zero_capacity_blocks:
  assumes "sem_cap b = 0" and "list_all (\<lambda>p. p = Waiting) (phases b)"
  shows "step a b = None"
  using assms by (cases a) (auto simp: list_all_length)

lemma queryAll_zero_concurrency:
  assumes "queryAll_returns ds 0 rs"
  shows "ds = []"
proof -
  from assms obtain b0 sched b where s: "queryAll_start ds 0 = Inr b0"
    and r: "run sched b0 = Some b" and f: "finished b"
    by (auto simp: queryAll_returns_def)
  from s have b0: "sem_cap b0 = 0" "phases b0 = replicate (length ds) Waiting"
    by (auto simp: queryAll_start_def)
  then have "list_all (\<lambda>p. p = Waiting) (phases b0)" by (simp add: list_all_length)
  with b0 have "step a b0 = None" for a by (intro zero_capacity_blocks)
  with r have "b = b0" by (cases sched) auto
  with f b0 show ?thesis by (cases ds) (auto simp: finished_def)
qed

lemma queryAll_negative_concurrency:
  "concurrency < 0 \<Longrightarrow> \<not> queryAll_returns ds concurrency rs"
  by (simp add: queryAll_returns_def queryAll_start_def)



text \<open>
  C9. After any steps of a batch started with the limit \<open>concurrency\<close>, the goroutines
  that have sent on \<open>sem\<close> and not yet received from it are as many as the elements in
  the channel, and at most \<open>concurrency\<close>.
\<close>

theorem queryAll_concurrency_ceiling:
  assumes "queryAll_start ds concurrency = Inr b0" and "run sched b0 = Some b"
  shows "int (in_flight b) \<le> concurrency \<and> in_flight b = sem_len b"
proof -
  note i0 = start_inv [OF assms(1)]
  then have "batch_inv ds b0" by blast
  note i = run_inv [OF this assms(2)]
  then have "in_flight b = sem_len b" and "sem_len b \<le> sem_cap b0"
    by (auto simp: batch_inv_def)
  with i0 show ?thesis by auto
qed
lemma example_start:
  "queryAll_start [''a.com'', ''b.com'', ''c.com''] 2 = Inr example_batch"
  by (simp add: queryAll_start_def example_batch_def)

theorem queryAll_concurrency_ceiling_witness:
  "queryAll_start [''a.com'', ''b.com'', ''c.com''] 2 = Inr example_batch \<and>
   map_option phases (run [Acquire 2, Acquire 0] example_batch) =
     Some [Running, Waiting, Running] \<and>
   map_option in_flight (run [Acquire 2, Acquire 0] example_batch) = Some 2 \<and>
   map_option (step (Acquire 1)) (run [Acquire 2, Acquire 0] example_batch) = Some None"
proof -
  have p: "map_option phases (run [Acquire 2, Acquire 0] example_batch) =
     Some [Running, Waiting, Running]"
    by code_simp
  then obtain b where r: "run [Acquire 2, Acquire 0] example_batch = Some b"
    and ph: "phases b = [Running, Waiting, Running]"
    by auto
  have f: "in_flight b = 2" using ph by (simp add: in_flight_def)
  from queryAll_concurrency_ceiling [OF example_start r] f
  have "sem_len b = 2" by simp
  moreover have "sem_cap b = 2"
    using run_inv [OF _ r] start_inv [OF example_start] by auto
  ultimately have "step (Acquire 1) b = None" by simp
  with r f p example_start show ?thesis by simp
qed

end
